theory Spec2Isabelle
  imports Main "HOL-Library.Sublist" "HOL-Library.Word"
begin

section \<open>Errors\<close>

text \<open>
  Go \<^verbatim>\<open>error\<close> values. \<open>New msg\<close> is a root error with a fixed message (what a system
  returns). \<open>Errorf fmt args\<close> is \<^verbatim>\<open>eris.Errorf(fmt, args...)\<close> and \<open>Wrapf cause fmt args\<close>
  is \<^verbatim>\<open>eris.Wrapf(cause, fmt, args...)\<close>; the format string and the values it is applied
  to are kept as they are passed, unrendered.
\<close>

datatype error =
    New string
  | Errorf string "string list"
  | Wrapf error string "string list"

section \<open>The context handed to systems\<close>

text \<open>
  \<^verbatim>\<open>engine.Context\<close>, restricted to what \<^verbatim>\<open>system.go\<close> uses: the tick number
  (\<^verbatim>\<open>CurrentTick() uint64\<close>), the logger (the fields added with \<^verbatim>\<open>With().Str(k, v)\<close>),
  and the world state \<open>'w\<close> that systems read and mutate through the context.
\<close>

record 'w Context =
  CurrentTick :: "64 word"
  Logger :: "(string \<times> string) list"
  World :: 'w

definition SetLogger :: "(string \<times> string) list \<Rightarrow> 'w Context \<Rightarrow> 'w Context" where
  "SetLogger l wCtx = wCtx\<lparr>Logger := l\<rparr>"

definition With_Str :: "string \<Rightarrow> string \<Rightarrow> (string \<times> string) list \<Rightarrow> (string \<times> string) list" where
  "With_Str k v l = l @ [(k, v)]"

section \<open>Systems and the system manager\<close>

text \<open>
  \<^verbatim>\<open>type System func(ctx engine.Context) error\<close>. A Go function value has a code
  identity: \<open>funcName\<close> is what \<^verbatim>\<open>runtime.FuncForPC(reflect.ValueOf(f).Pointer()).Name()\<close>
  returns for it. \<open>call\<close> is its behaviour: the context is passed by reference, so the
  call returns the error (\<open>None\<close> is \<^verbatim>\<open>nil\<close>) together with the context as the system
  left it.
\<close>

record 'w System =
  funcName :: string
  call :: "'w Context \<Rightarrow> error option \<times> 'w Context"

record 'w systemType =
  Name :: string
  Fn :: "'w System"

record 'w systemManager =
  registeredSystems :: "'w systemType list"
  registeredInitSystems :: "'w systemType list"
  currentSystem :: string

definition noActiveSystemName :: string where
  "noActiveSystemName = ''''"

definition newSystemManager :: "'w systemManager" where
  "newSystemManager =
     \<lparr>registeredSystems = [], registeredInitSystems = [], currentSystem = noActiveSystemName\<rparr>"

subsection \<open>Deriving a system's name\<close>

text \<open>
  \<^verbatim>\<open>filepath.Base\<close> with the separator \<^verbatim>\<open>/\<close> (no volume name): the empty path gives
  \<^verbatim>\<open>.\<close>, trailing separators are stripped, the last element is returned, and a path of
  separators only gives \<^verbatim>\<open>/\<close>.
\<close>

definition IsPathSeparator :: "char \<Rightarrow> bool" where
  "IsPathSeparator c = (c = CHR ''/'')"

definition Base :: "string \<Rightarrow> string" where
  "Base path =
     (if path = [] then ''.''
      else
        let stripped = rev (dropWhile IsPathSeparator (rev path));
            elem = rev (takeWhile (\<lambda>c. \<not> IsPathSeparator c) (rev stripped))
        in if elem = [] then ''/'' else elem)"

definition systemNameOf :: "'w System \<Rightarrow> string" where
  "systemNameOf systemFunc = Base (funcName systemFunc)"

subsection \<open>registerSystems\<close>

definition ContainsFunc :: "'a list \<Rightarrow> ('a \<Rightarrow> bool) \<Rightarrow> bool" where
  "ContainsFunc s f = list_ex f s"

text \<open>
  The loop of \<^verbatim>\<open>registerSystems\<close> over \<^verbatim>\<open>systemFuncs\<close>: \<open>systemToRegister\<close> is the
  accumulator. Each \<^verbatim>\<open>return eris.Errorf(...)\<close> inside the loop is an \<open>Inl\<close>.
\<close>

fun collectSystems ::
  "'w systemManager \<Rightarrow> 'w systemType list \<Rightarrow> 'w System list \<Rightarrow> error + 'w systemType list"
where
  "collectSystems m systemToRegister [] = Inr systemToRegister"
| "collectSystems m systemToRegister (systemFunc # systemFuncs) =
     (let systemName = systemNameOf systemFunc in
      if ContainsFunc systemToRegister (\<lambda>s. Name s = systemName)
      then Inl (Errorf ''duplicate system %q in slice'' [systemName])
      else if ContainsFunc (registeredSystems m @ registeredInitSystems m)
                (\<lambda>s. Name s = systemName)
      then Inl (Errorf ''System %q is already registered'' [systemName])
      else collectSystems m
             (systemToRegister @ [\<lparr>Name = systemName, Fn = systemFunc\<rparr>]) systemFuncs)"

definition registerSystems ::
  "bool \<Rightarrow> 'w System list \<Rightarrow> 'w systemManager \<Rightarrow> error option \<times> 'w systemManager"
where
  "registerSystems isInit systemFuncs m =
     (case collectSystems m [] systemFuncs of
        Inl err \<Rightarrow> (Some err, m)
      | Inr systemToRegister \<Rightarrow>
          if isInit
          then (None, m\<lparr>registeredInitSystems := registeredInitSystems m @ systemToRegister\<rparr>)
          else (None, m\<lparr>registeredSystems := registeredSystems m @ systemToRegister\<rparr>))"

subsection \<open>GetRegisteredSystems and GetCurrentSystem\<close>

definition GetRegisteredSystems :: "'w systemManager \<Rightarrow> string list" where
  "GetRegisteredSystems m = map Name (registeredInitSystems m @ registeredSystems m)"

definition GetCurrentSystem :: "'w systemManager \<Rightarrow> string" where
  "GetCurrentSystem m = currentSystem m"

subsection \<open>runSystems\<close>

text \<open>
  The calls \<^verbatim>\<open>runSystems\<close> makes out of the manager, in the order it makes them.
  \<open>Invoke n c\<close> is the call \<^verbatim>\<open>sys.Fn(wCtx)\<close> of the system named \<open>n\<close>;
  \<open>EmitTickStat n c\<close> is \<^verbatim>\<open>statsd.EmitTickStat(_, n)\<close>. In both, \<open>c\<close> is the value
  \<^verbatim>\<open>m.currentSystem\<close> holds while the call is made, which is what
  \<^verbatim>\<open>GetCurrentSystem\<close> returns to an observer at that moment. Start times
  (\<^verbatim>\<open>time.Now()\<close>) are not modelled.
\<close>

datatype event =
    Invoke string string
  | EmitTickStat string string

definition systemsToRun :: "'w systemManager \<Rightarrow> 'w Context \<Rightarrow> 'w systemType list" where
  "systemsToRun m wCtx =
     (if CurrentTick wCtx = 0 then registeredInitSystems m @ registeredSystems m
      else registeredSystems m)"

text \<open>
  The loop over \<^verbatim>\<open>systemsToRun\<close>. The state is the manager, the context and the calls
  made so far; the result adds the error returned (\<open>None\<close> when the loop runs to its end).
\<close>

fun runLoop ::
  "'w systemType list \<Rightarrow> 'w systemManager \<Rightarrow> 'w Context \<Rightarrow> event list \<Rightarrow>
     error option \<times> 'w systemManager \<times> 'w Context \<times> event list"
where
  "runLoop [] m wCtx tr = (None, m, wCtx, tr)"
| "runLoop (sys # rest) m wCtx tr =
     (let m1 = m\<lparr>currentSystem := Name sys\<rparr>;
          wCtx1 = SetLogger (With_Str ''system'' (Name sys) (Logger wCtx)) wCtx;
          tr1 = tr @ [Invoke (Name sys) (GetCurrentSystem m1)]
      in case call (Fn sys) wCtx1 of
           (Some err, wCtx2) \<Rightarrow>
             (Some (Wrapf err ''System %s generated an error'' [Name sys]),
              m1\<lparr>currentSystem := ''''\<rparr>, wCtx2, tr1)
         | (None, wCtx2) \<Rightarrow>
             runLoop rest m1 wCtx2 (tr1 @ [EmitTickStat (Name sys) (GetCurrentSystem m1)]))"

definition runSystems ::
  "'w systemManager \<Rightarrow> 'w Context \<Rightarrow>
     error option \<times> 'w systemManager \<times> 'w Context \<times> event list"
where
  "runSystems m wCtx =
     (case runLoop (systemsToRun m wCtx) m wCtx [] of
        (Some err, m', wCtx', tr) \<Rightarrow> (Some err, m', wCtx', tr)
      | (None, m', wCtx', tr) \<Rightarrow>
          (let m'' = m'\<lparr>currentSystem := noActiveSystemName\<rparr>
           in (None, m'', wCtx', tr @ [EmitTickStat ''all_systems'' (GetCurrentSystem m'')])))"

text \<open>The names of the systems invoked, in the order of their invocation.\<close>

fun invoked :: "event list \<Rightarrow> string list" where
  "invoked [] = []"
| "invoked (Invoke n c # es) = n # invoked es"
| "invoked (EmitTickStat n c # es) = invoked es"

section \<open>Vocabulary of the properties\<close>

text \<open>The entry \<^verbatim>\<open>registerSystems\<close> makes for a system function.\<close>

definition mkSystem :: "'w System \<Rightarrow> 'w systemType" where
  "mkSystem f = \<lparr>Name = systemNameOf f, Fn = f\<rparr>"

text \<open>
  A sequence of registration calls, each given as \<open>(isInit, systemFuncs)\<close>, all of which
  succeed: \<open>None\<close> when one of them returns an error.
\<close>

fun registerAll ::
  "(bool \<times> 'w System list) list \<Rightarrow> 'w systemManager \<Rightarrow> 'w systemManager option"
where
  "registerAll [] m = Some m"
| "registerAll ((isInit, systemFuncs) # calls) m =
     (case registerSystems isInit systemFuncs m of
        (None, m') \<Rightarrow> registerAll calls m'
      | (Some err, m') \<Rightarrow> None)"

text \<open>
  The calls of one iteration of the loop that ends without error: the system is invoked
  and its statistic is emitted, both while the record holds the system's name.
\<close>

definition stepEvents :: "'w systemType \<Rightarrow> event list" where
  "stepEvents sys = [Invoke (Name sys) (Name sys), EmitTickStat (Name sys) (Name sys)]"

text \<open>
  One system of the loop taken alone: the logger is given the system's name, then the
  system is called (lines 123 and 127 of \<^verbatim>\<open>system.go\<close>).
\<close>

definition runSystem :: "'w systemType \<Rightarrow> 'w Context \<Rightarrow> error option \<times> 'w Context" where
  "runSystem sys wCtx = call (Fn sys) (SetLogger (With_Str ''system'' (Name sys) (Logger wCtx)) wCtx)"

text \<open>
  The values an error was wrapped with: the arguments of the outermost
  \<^verbatim>\<open>eris.Wrapf\<close>. \<open>decimal\<close> renders a number as \<^verbatim>\<open>%d\<close> (or \<^verbatim>\<open>%v\<close>) does.
\<close>

fun wrappedWith :: "error \<Rightarrow> string list" where
  "wrappedWith (Wrapf cause fmt args) = args"
| "wrappedWith (New msg) = []"
| "wrappedWith (Errorf fmt args) = []"

fun decimal :: "nat \<Rightarrow> string" where
  "decimal n =
     (if n < 10 then [''0123456789'' ! n]
      else decimal (n div 10) @ [''0123456789'' ! (n mod 10)])"

declare decimal.simps [simp del]





section \<open>The transaction queue\<close>

text \<open>
  Modelled from the spec: the transaction queue (\<^verbatim>\<open>AddTransaction\<close>,
  \<^verbatim>\<open>SwapAndGetProcessing\<close>, \<^verbatim>\<open>TypedView\<close>), whose code is not among the sources; only
  its tests and callers are. A queued transaction is the tuple of type id, payload and
  signature; the signature is the submitter tag and the nonce. The queue has two
  buffers: \<open>active\<close> accumulates submissions, \<open>processing\<close> is the frozen batch of the
  tick that is executing.
\<close>

record 'p Transaction =
  TypeID :: nat
  payload :: 'p
  signature :: "string \<times> 64 word"

record 'p TransactionQueue =
  active :: "'p Transaction list"
  processing :: "'p Transaction list"

definition newTransactionQueue :: "'p TransactionQueue" where
  "newTransactionQueue = \<lparr>active = [], processing = []\<rparr>"

text \<open>Modelled from the spec: \<^verbatim>\<open>AddTransaction\<close> appends to the active buffer.\<close>

definition AddTransaction ::
  "nat \<Rightarrow> 'p \<Rightarrow> string \<times> 64 word \<Rightarrow> 'p TransactionQueue \<Rightarrow> 'p TransactionQueue"
where
  "AddTransaction typeID p sig q =
     q\<lparr>active := active q @ [\<lparr>TypeID = typeID, payload = p, signature = sig\<rparr>]\<rparr>"

text \<open>
  Modelled from the spec: \<^verbatim>\<open>SwapAndGetProcessing\<close>. The active buffer becomes the
  processing buffer, a new empty active buffer is installed, and the new processing
  batch is returned.
\<close>

definition SwapAndGetProcessing ::
  "'p TransactionQueue \<Rightarrow> 'p Transaction list \<times> 'p TransactionQueue"
where
  "SwapAndGetProcessing q = (active q, \<lparr>active = [], processing = active q\<rparr>)"

text \<open>
  Modelled from the spec: \<^verbatim>\<open>TypedView\<close> filters a batch to the entries of one type id
  and keeps their order.
\<close>

definition TypedView :: "'p Transaction list \<Rightarrow> nat \<Rightarrow> 'p Transaction list" where
  "TypedView batch typeID = filter (\<lambda>tx. TypeID tx = typeID) batch"

text \<open>A sequence of submissions, one \<^verbatim>\<open>AddTransaction\<close> call for each, in order.\<close>

fun submitAll :: "'p Transaction list \<Rightarrow> 'p TransactionQueue \<Rightarrow> 'p TransactionQueue" where
  "submitAll [] q = q"
| "submitAll (tx # txs) q =
     submitAll txs (AddTransaction (TypeID tx) (payload tx) (signature tx) q)"

section \<open>Transaction types\<close>

text \<open>The error taxonomy of the spec, as far as transaction types are concerned.\<close>

datatype txError =
    DuplicateRegistration
  | RegistrationClosed
  | SchemaNotConfigured
  | DecodeFailure

text \<open>
  Modelled from the spec: a transaction type, whose code (\<^verbatim>\<open>NewTransactionType\<close>,
  \<^verbatim>\<open>SetEVMType\<close>, \<^verbatim>\<open>DecodeEVMBytes\<close>) is not among the sources. It has a name, the shape of
  its payload (\<open>'sh\<close>), and the external schema once one is configured (\<open>'s\<close>).
\<close>

record ('sh, 's) TransactionType =
  txName :: string
  txShape :: 'sh
  txSchema :: "'s option"

definition NewTransactionType :: "string \<Rightarrow> 'sh \<Rightarrow> ('sh, 's) TransactionType" where
  "NewTransactionType name shape = \<lparr>txName = name, txShape = shape, txSchema = None\<rparr>"

definition SetSchema :: "'s \<Rightarrow> ('sh, 's) TransactionType \<Rightarrow> ('sh, 's) TransactionType" where
  "SetSchema schema t = t\<lparr>txSchema := Some schema\<rparr>"

text \<open>
  Modelled from the spec: \<^verbatim>\<open>DecodeExternalBytes\<close> (\<^verbatim>\<open>DecodeEVMBytes\<close> in the tests). It
  fails with \<open>SchemaNotConfigured\<close> before \<^verbatim>\<open>SetSchema\<close>; otherwise it decodes per schema or
  fails with \<open>DecodeFailure\<close>. Decoding per schema is the work of an external library and
  is the parameter \<open>unpack\<close>.
\<close>

definition DecodeExternalBytes ::
  "('s \<Rightarrow> 8 word list \<Rightarrow> 'p option) \<Rightarrow> ('sh, 's) TransactionType \<Rightarrow> 8 word list \<Rightarrow> txError + 'p"
where
  "DecodeExternalBytes unpack t bz =
     (case txSchema t of
        None \<Rightarrow> Inl SchemaNotConfigured
      | Some schema \<Rightarrow>
          (case unpack schema bz of
             None \<Rightarrow> Inl DecodeFailure
           | Some p \<Rightarrow> Inr p))"

text \<open>
  Modelled from the spec: the registration of transaction types on a world, whose code
  (\<^verbatim>\<open>RegisterTransactions\<close>) is not among the sources. Type ids ascend in registration
  order. A type is refused with \<open>DuplicateRegistration\<close> when its name is already
  registered, or when the identical type is, by an earlier call or earlier in the same
  call; a call that fails registers nothing. Registration is closed once the game state is
  loaded.
\<close>

record ('sh, 's) TxRegistry =
  registeredTransactions :: "(nat \<times> ('sh, 's) TransactionType) list"
  stateIsLoaded :: bool

definition newTxRegistry :: "('sh, 's) TxRegistry" where
  "newTxRegistry = \<lparr>registeredTransactions = [], stateIsLoaded = False\<rparr>"

fun registerEach ::
  "(nat \<times> ('sh, 's) TransactionType) list \<Rightarrow> ('sh, 's) TransactionType list \<Rightarrow>
     txError + (nat \<times> ('sh, 's) TransactionType) list"
where
  "registerEach regs [] = Inr regs"
| "registerEach regs (t # ts) =
     (if txName t \<in> set (map (\<lambda>r. txName (snd r)) regs) \<or> t \<in> set (map snd regs)
      then Inl DuplicateRegistration
      else registerEach (regs @ [(Suc (length regs), t)]) ts)"

definition RegisterTransactions ::
  "('sh, 's) TransactionType list \<Rightarrow> ('sh, 's) TxRegistry \<Rightarrow> txError + ('sh, 's) TxRegistry"
where
  "RegisterTransactions txs w =
     (if stateIsLoaded w then Inl RegistrationClosed
      else case registerEach (registeredTransactions w) txs of
             Inl err \<Rightarrow> Inl err
           | Inr regs \<Rightarrow> Inr (w\<lparr>registeredTransactions := regs\<rparr>))"

text \<open>
  A sequence of registration calls on one world, whatever each returns: a call that
  fails leaves the world as it was.
\<close>

fun registerTxSeq ::
  "('sh, 's) TransactionType list list \<Rightarrow> ('sh, 's) TxRegistry \<Rightarrow> ('sh, 's) TxRegistry"
where
  "registerTxSeq [] w = w"
| "registerTxSeq (txs # calls) w =
     (case RegisterTransactions txs w of
        Inl err \<Rightarrow> registerTxSeq calls w
      | Inr w' \<Rightarrow> registerTxSeq calls w')"

section \<open>Concrete inputs\<close>

text \<open>Three systems used to run the definitions on concrete inputs.\<close>

definition sysA :: "nat System" where
  "sysA = \<lparr>funcName = ''pkg.world.dev/game.SysA'', call = (\<lambda>c. (None, c\<lparr>World := World c + 1\<rparr>))\<rparr>"

definition sysB :: "nat System" where
  "sysB = \<lparr>funcName = ''pkg.world.dev/game.SysB'', call = (\<lambda>c. (None, c\<lparr>World := World c * 2\<rparr>))\<rparr>"

definition sysFail :: "nat System" where
  "sysFail = \<lparr>funcName = ''pkg.world.dev/game.SysFail'',
              call = (\<lambda>c. (Some (New ''boom''), c\<lparr>World := World c + 10\<rparr>))\<rparr>"

text \<open>Contexts and managers used to run the definitions on concrete inputs.\<close>

definition ctxAt :: "64 word \<Rightarrow> nat Context" where
  "ctxAt t = \<lparr>CurrentTick = t, Logger = [], World = 0\<rparr>"

definition mgrAB :: "nat systemManager" where
  "mgrAB = \<lparr>registeredSystems = [mkSystem sysA], registeredInitSystems = [mkSystem sysB],
            currentSystem = ''''\<rparr>"

definition mgrFail :: "nat systemManager" where
  "mgrFail = \<lparr>registeredSystems = [mkSystem sysA, mkSystem sysFail, mkSystem sysB],
              registeredInitSystems = [], currentSystem = ''''\<rparr>"


text \<open>Transactions and transaction types used to run the definitions on concrete inputs.\<close>

definition txT1 :: "nat Transaction" where
  "txT1 = \<lparr>TypeID = 1, payload = 105, signature = (''alice'', 1)\<rparr>"

definition txT2 :: "nat Transaction" where
  "txT2 = \<lparr>TypeID = 1, payload = 110, signature = (''bob'', 1)\<rparr>"

definition txOther :: "nat Transaction" where
  "txOther = \<lparr>TypeID = 2, payload = 0, signature = (''alice'', 2)\<rparr>"

definition alphaTx :: "(string, nat) TransactionType" where
  "alphaTx = NewTransactionType ''name_match'' ''SomeTx''"

definition betaTx :: "(string, nat) TransactionType" where
  "betaTx = NewTransactionType ''name_match'' ''OtherTx''"

definition modifyScoreTx :: "(string, nat) TransactionType" where
  "modifyScoreTx = NewTransactionType ''modify_score'' ''ModifyScoreTx''"

definition moveTx :: "(string, nat) TransactionType" where
  "moveTx = NewTransactionType ''move'' ''MoveTx''"

section \<open>Registration\<close>

lemma ContainsFunc_Name:
  "ContainsFunc xs (\<lambda>s. Name s = n) \<longleftrightarrow> n \<in> set (map Name xs)"
  by (auto simp: ContainsFunc_def list_ex_iff)

lemma collectSystems_ok:
  "distinct (map Name acc @ map systemNameOf fs) \<Longrightarrow>
   set (map systemNameOf fs) \<inter> set (map Name (registeredSystems m @ registeredInitSystems m)) = {} \<Longrightarrow>
   collectSystems m acc fs = Inr (acc @ map mkSystem fs)"
proof (induction fs arbitrary: acc)
  case Nil
  then show ?case by simp
next
  case (Cons f fs)
  have notin: "systemNameOf f \<notin> set (map Name acc)"
    using Cons.prems(1) by auto
  have notreg: "systemNameOf f \<notin> set (map Name (registeredSystems m @ registeredInitSystems m))"
    using Cons.prems(2) by auto
  have d: "distinct (map Name (acc @ [mkSystem f]) @ map systemNameOf fs)"
    using Cons.prems(1) by (auto simp: mkSystem_def)
  have r: "set (map systemNameOf fs) \<inter>
           set (map Name (registeredSystems m @ registeredInitSystems m)) = {}"
    using Cons.prems(2) by auto
  have "collectSystems m (acc @ [mkSystem f]) fs = Inr ((acc @ [mkSystem f]) @ map mkSystem fs)"
    using Cons.IH [OF _ r, of "acc @ [mkSystem f]"] d by simp
  with notin notreg show ?case
    by (simp add: ContainsFunc_Name Let_def mkSystem_def del: map_append)
qed

lemma collectSystems_fail:
  "\<not> distinct (map Name acc @ map systemNameOf fs) \<or>
   set (map systemNameOf fs) \<inter> set (map Name (registeredSystems m @ registeredInitSystems m)) \<noteq> {} \<Longrightarrow>
   distinct (map Name acc) \<Longrightarrow>
   \<exists>e. collectSystems m acc fs = Inl e"
proof (induction fs arbitrary: acc)
  case Nil
  then show ?case by simp
next
  case (Cons f fs)
  show ?case
  proof (cases "systemNameOf f \<in> set (map Name acc) \<or>
                systemNameOf f \<in> set (map Name (registeredSystems m @ registeredInitSystems m))")
    case True
    then show ?thesis
      by (auto simp: ContainsFunc_Name Let_def simp del: map_append)
  next
    case False
    have d: "distinct (map Name (acc @ [mkSystem f]))"
      using False Cons.prems(2) by (auto simp: mkSystem_def)
    have "\<not> distinct (map Name (acc @ [mkSystem f]) @ map systemNameOf fs) \<or>
          set (map systemNameOf fs) \<inter>
            set (map Name (registeredSystems m @ registeredInitSystems m)) \<noteq> {}"
      using Cons.prems(1) False by (auto simp: mkSystem_def)
    from Cons.IH [OF this d] obtain e where
      "collectSystems m (acc @ [mkSystem f]) fs = Inl e" by blast
    with False show ?thesis
      by (simp add: ContainsFunc_Name Let_def mkSystem_def del: map_append)
  qed
qed

lemma collectSystems_Inr:
  "collectSystems m acc fs = Inr r \<Longrightarrow> r = acc @ map mkSystem fs"
proof (induction fs arbitrary: acc)
  case Nil
  then show ?case by simp
next
  case (Cons f fs)
  from Cons.prems have "collectSystems m (acc @ [mkSystem f]) fs = Inr r"
    by (simp add: Let_def mkSystem_def split: if_splits)
  from Cons.IH [OF this] show ?case by simp
qed

lemma registerSystems_success:
  "registerSystems isInit fs m = (None, m') \<Longrightarrow>
   m' = (if isInit
         then m\<lparr>registeredInitSystems := registeredInitSystems m @ map mkSystem fs\<rparr>
         else m\<lparr>registeredSystems := registeredSystems m @ map mkSystem fs\<rparr>)"
  by (auto simp: registerSystems_def split: sum.splits if_splits dest: collectSystems_Inr)

lemma registerAll_lists:
  "registerAll calls m0 = Some m \<Longrightarrow>
   registeredInitSystems m =
     registeredInitSystems m0 @ map mkSystem (concat (map snd (filter fst calls))) \<and>
   registeredSystems m =
     registeredSystems m0 @ map mkSystem (concat (map snd (filter (\<lambda>c. \<not> fst c) calls)))"
proof (induction calls arbitrary: m0)
  case Nil
  then show ?case by simp
next
  case (Cons c calls)
  obtain isInit fs where c: "c = (isInit, fs)" by (cases c)
  obtain r m1 where r: "registerSystems isInit fs m0 = (r, m1)"
    by (cases "registerSystems isInit fs m0")
  from Cons.prems c r have r0: "r = None" and rest: "registerAll calls m1 = Some m"
    by (auto split: option.splits)
  from registerSystems_success [of isInit fs m0 m1] r r0
  have m1: "m1 = (if isInit
         then m0\<lparr>registeredInitSystems := registeredInitSystems m0 @ map mkSystem fs\<rparr>
         else m0\<lparr>registeredSystems := registeredSystems m0 @ map mkSystem fs\<rparr>)"
    by simp
  from Cons.IH [OF rest] m1 c show ?case
    by (cases isInit) simp_all
qed

lemma systemNameOf_sysA: "systemNameOf sysA = ''game.SysA''"
  by (simp add: systemNameOf_def sysA_def Base_def IsPathSeparator_def)

lemma systemNameOf_sysB: "systemNameOf sysB = ''game.SysB''"
  by (simp add: systemNameOf_def sysB_def Base_def IsPathSeparator_def)

lemma systemNameOf_sysFail: "systemNameOf sysFail = ''game.SysFail''"
  by (simp add: systemNameOf_def sysFail_def Base_def IsPathSeparator_def)

text \<open>
  C4. A call of \<open>registerSystems\<close> with a batch of system functions: if two functions of
  the batch have the same derived name, or the derived name of one is the name of a
  system registered before (regular or init), the call returns an error and the manager
  is unchanged; otherwise it returns no error and the whole batch is appended, in the
  order given, to the init systems when \<open>isInit\<close> holds and to the regular systems
  otherwise.
\<close>

theorem registerSystems_all_or_nothing:
  "if \<not> distinct (map systemNameOf fs) \<or>
      set (map systemNameOf fs) \<inter>
        set (map Name (registeredSystems m @ registeredInitSystems m)) \<noteq> {}
   then \<exists>e. registerSystems isInit fs m = (Some e, m)
   else registerSystems isInit fs m =
          (None,
           if isInit
           then m\<lparr>registeredInitSystems := registeredInitSystems m @ map mkSystem fs\<rparr>
           else m\<lparr>registeredSystems := registeredSystems m @ map mkSystem fs\<rparr>)"
proof (cases "\<not> distinct (map systemNameOf fs) \<or>
      set (map systemNameOf fs) \<inter>
        set (map Name (registeredSystems m @ registeredInitSystems m)) \<noteq> {}")
  case True
  then have "\<exists>e. collectSystems m [] fs = Inl e"
    using collectSystems_fail [of "[]" fs m] by simp
  with True show ?thesis
    by (auto simp: registerSystems_def)
next
  case False
  then have "collectSystems m [] fs = Inr ([] @ map mkSystem fs)"
    using collectSystems_ok [of "[]" fs m] by simp
  with False show ?thesis
    by (simp add: registerSystems_def)
qed

theorem registerSystems_all_or_nothing_witness:
  "registerSystems False [sysA, sysB] newSystemManager =
     (None, newSystemManager\<lparr>registeredSystems := [mkSystem sysA, mkSystem sysB]\<rparr>) \<and>
   (\<exists>e. registerSystems True [sysA, sysB, sysA] newSystemManager = (Some e, newSystemManager)) \<and>
   (\<exists>e. registerSystems True [sysB]
           (newSystemManager\<lparr>registeredSystems := [mkSystem sysA, mkSystem sysB]\<rparr>) =
         (Some e, newSystemManager\<lparr>registeredSystems := [mkSystem sysA, mkSystem sysB]\<rparr>))"
  using registerSystems_all_or_nothing [of "[sysA, sysB]" newSystemManager False]
        registerSystems_all_or_nothing [of "[sysA, sysB, sysA]" newSystemManager True]
        registerSystems_all_or_nothing [of "[sysB]"
          "newSystemManager\<lparr>registeredSystems := [mkSystem sysA, mkSystem sysB]\<rparr>" True]
  by (simp add: systemNameOf_sysA systemNameOf_sysB newSystemManager_def mkSystem_def)

text \<open>
  C10. After a sequence of successful registration calls on a new manager,
  \<open>GetRegisteredSystems\<close> returns the names of the init systems, in the order of their
  registration, followed by the names of the regular systems, in the order of theirs,
  however the init and regular calls were interleaved.
\<close>

theorem GetRegisteredSystems_init_first:
  "registerAll calls newSystemManager = Some m \<Longrightarrow>
   GetRegisteredSystems m =
     map systemNameOf (concat (map snd (filter fst calls))) @
     map systemNameOf (concat (map snd (filter (\<lambda>c. \<not> fst c) calls)))"
  using registerAll_lists [of calls newSystemManager m]
  by (simp add: GetRegisteredSystems_def newSystemManager_def mkSystem_def comp_def)

theorem GetRegisteredSystems_init_first_witness:
  "registerAll [(False, [sysA]), (True, [sysB]), (False, [sysFail])] newSystemManager =
     Some \<lparr>registeredSystems = [mkSystem sysA, mkSystem sysFail],
           registeredInitSystems = [mkSystem sysB], currentSystem = []\<rparr> \<and>
   GetRegisteredSystems
     \<lparr>registeredSystems = [mkSystem sysA, mkSystem sysFail],
      registeredInitSystems = [mkSystem sysB], currentSystem = []\<rparr> =
     [''game.SysB'', ''game.SysA'', ''game.SysFail'']"
proof -
  have r: "registerAll [(False, [sysA]), (True, [sysB]), (False, [sysFail])] newSystemManager =
     Some \<lparr>registeredSystems = [mkSystem sysA, mkSystem sysFail],
           registeredInitSystems = [mkSystem sysB], currentSystem = []\<rparr>"
    by (simp add: registerSystems_def newSystemManager_def noActiveSystemName_def
        ContainsFunc_def mkSystem_def systemNameOf_sysA systemNameOf_sysB systemNameOf_sysFail)
  from GetRegisteredSystems_init_first [OF r] r show ?thesis
    by (simp add: systemNameOf_sysA systemNameOf_sysB systemNameOf_sysFail)
qed

text \<open>
  The names stay distinct: a successful call of \<open>registerSystems\<close> adds only names that
  are new, so a manager built by registration calls never holds a name twice.
\<close>

lemma registerSystems_success_distinct:
  assumes ok: "registerSystems isInit fs m = (None, m')"
    and d: "distinct (map Name (registeredSystems m @ registeredInitSystems m))"
  shows "distinct (map Name (registeredSystems m' @ registeredInitSystems m'))"
proof -
  have nofail: "\<not> (\<exists>e. collectSystems m [] fs = Inl e)"
    using ok by (auto simp: registerSystems_def split: sum.splits)
  have fresh: "distinct (map systemNameOf fs) \<and>
      set (map systemNameOf fs) \<inter>
        set (map Name (registeredSystems m @ registeredInitSystems m)) = {}"
    using collectSystems_fail [of "[]" fs m] nofail by auto
  have names: "Name \<circ> mkSystem = (systemNameOf :: 'a System \<Rightarrow> string)"
    by (simp add: fun_eq_iff mkSystem_def)
  from registerSystems_success [OF ok] d fresh show ?thesis
    by (cases isInit) (auto simp: names)
qed

lemma registerAll_distinct_from:
  "registerAll calls m0 = Some m \<Longrightarrow>
   distinct (map Name (registeredSystems m0 @ registeredInitSystems m0)) \<Longrightarrow>
   distinct (map Name (registeredSystems m @ registeredInitSystems m))"
proof (induction calls arbitrary: m0)
  case Nil
  then show ?case by simp
next
  case (Cons c calls)
  obtain isInit fs where c: "c = (isInit, fs)" by (cases c)
  obtain r m1 where r: "registerSystems isInit fs m0 = (r, m1)"
    by (cases "registerSystems isInit fs m0")
  from Cons.prems(1) c r have r0: "r = None" and rest: "registerAll calls m1 = Some m"
    by (auto split: option.splits)
  from r r0 have "registerSystems isInit fs m0 = (None, m1)" by simp
  from registerSystems_success_distinct [OF this Cons.prems(2)]
  have "distinct (map Name (registeredSystems m1 @ registeredInitSystems m1))" .
  from Cons.IH [OF rest this] show ?case .
qed

lemma registerAll_distinct:
  "registerAll calls newSystemManager = Some m \<Longrightarrow>
   distinct (map Name (registeredInitSystems m @ registeredSystems m))"
  using registerAll_distinct_from [of calls newSystemManager m]
  by (auto simp: newSystemManager_def)


section \<open>Properties of runSystems\<close>

lemma runLoop_append:
  "runLoop (pre @ rest) m wCtx tr =
     (case runLoop pre m wCtx tr of
        (None, m1, wCtx1, tr1) \<Rightarrow> runLoop rest m1 wCtx1 tr1
      | (Some err, r) \<Rightarrow> (Some err, r))"
  by (induction pre arbitrary: m wCtx tr) (auto simp: Let_def split: prod.splits option.splits)

lemma runLoop_None:
  "runLoop syss m wCtx tr = (None, m', wCtx', tr') \<Longrightarrow>
   tr' = tr @ concat (map stepEvents syss) \<and>
   m' = (if syss = [] then m else m\<lparr>currentSystem := Name (last syss)\<rparr>)"
proof (induction syss arbitrary: m wCtx tr)
  case Nil
  then show ?case by simp
next
  case (Cons s syss)
  obtain r c2 where c: "call (Fn s) (SetLogger (With_Str ''system'' (Name s) (Logger wCtx)) wCtx) = (r, c2)"
    by (cases "call (Fn s) (SetLogger (With_Str ''system'' (Name s) (Logger wCtx)) wCtx)")
  with Cons.prems have r: "r = None"
    by (cases r) (simp_all add: Let_def)
  with Cons.prems c have
    "runLoop syss (m\<lparr>currentSystem := Name s\<rparr>) c2
       (tr @ [Invoke (Name s) (Name s)] @ [EmitTickStat (Name s) (Name s)]) = (None, m', wCtx', tr')"
    by (simp add: Let_def GetCurrentSystem_def)
  from Cons.IH [OF this] show ?case
    by (simp add: stepEvents_def)
qed


lemma invoked_append: "invoked (xs @ ys) = invoked xs @ invoked ys"
  by (induction xs rule: invoked.induct) simp_all

lemma invoked_stepEvents: "invoked (concat (map stepEvents syss)) = map Name syss"
  by (induction syss) (simp_all add: stepEvents_def)



lemma Name_mkSystem: "Name (mkSystem f) = systemNameOf f"
  by (simp add: mkSystem_def)

lemma Fn_mkSystem: "Fn (mkSystem f) = f"
  by (simp add: mkSystem_def)

lemma call_sysA: "call sysA c = (None, c\<lparr>World := World c + 1\<rparr>)"
  by (simp add: sysA_def)

lemma call_sysB: "call sysB c = (None, c\<lparr>World := World c * 2\<rparr>)"
  by (simp add: sysB_def)

lemma call_sysFail: "call sysFail c = (Some (New ''boom''), c\<lparr>World := World c + 10\<rparr>)"
  by (simp add: sysFail_def)

lemmas run_simps =
  runSystems_def systemsToRun_def Let_def SetLogger_def With_Str_def GetCurrentSystem_def
  noActiveSystemName_def Name_mkSystem Fn_mkSystem systemNameOf_sysA systemNameOf_sysB
  systemNameOf_sysFail ctxAt_def call_sysA call_sysB call_sysFail


lemma run_mgrAB_tick5:
  "runSystems mgrAB (ctxAt 5) =
     (None, mgrAB,
      \<lparr>CurrentTick = 5, Logger = [(''system'', ''game.SysA'')], World = 1\<rparr>,
      [Invoke ''game.SysA'' ''game.SysA'', EmitTickStat ''game.SysA'' ''game.SysA'',
       EmitTickStat ''all_systems'' ''''])"
  by (simp add: run_simps mgrAB_def)

lemma run_mgrFail:
  "t \<noteq> 0 \<Longrightarrow> runSystems mgrFail (ctxAt t) =
     (Some (Wrapf (New ''boom'') ''System %s generated an error'' [''game.SysFail'']), mgrFail,
      \<lparr>CurrentTick = t, Logger = [(''system'', ''game.SysA''), (''system'', ''game.SysFail'')],
       World = 11\<rparr>,
      [Invoke ''game.SysA'' ''game.SysA'', EmitTickStat ''game.SysA'' ''game.SysA'',
       Invoke ''game.SysFail'' ''game.SysFail''])"
  by (simp add: run_simps mgrFail_def)









lemma run_prefix_mgrFail:
  "runLoop [mkSystem sysA] mgrFail (ctxAt 7) [] =
     (None, mgrFail\<lparr>currentSystem := ''game.SysA''\<rparr>,
      \<lparr>CurrentTick = 7, Logger = [(''system'', ''game.SysA'')], World = 1\<rparr>,
      [Invoke ''game.SysA'' ''game.SysA'', EmitTickStat ''game.SysA'' ''game.SysA''])"
  by (simp add: run_simps mgrFail_def)

lemma runSystem_sysFail:
  "runSystem (mkSystem sysFail)
     \<lparr>CurrentTick = 7, Logger = [(''system'', ''game.SysA'')], World = 1\<rparr> =
   (Some (New ''boom''),
    \<lparr>CurrentTick = 7, Logger = [(''system'', ''game.SysA''), (''system'', ''game.SysFail'')],
     World = 11\<rparr>)"
  by (simp add: runSystem_def run_simps)

text \<open>
  C2, with the name as the only value wrapped in. If the systems before \<open>s\<close> in the
  tick's list return no error and
  \<open>s\<close> returns the error \<open>e\<close>, then \<open>runSystems\<close> invokes no system after \<open>s\<close>, clears
  the current-system record, leaves the context as \<open>s\<close> left it, and returns \<open>e\<close> wrapped
  by \<^verbatim>\<open>eris.Wrapf\<close> with the format \<^verbatim>\<open>System %s generated an error\<close> applied to the name
  of \<open>s\<close> and to nothing else.
\<close>

theorem runSystems_error_aborts_tick:
  "systemsToRun m wCtx = pre @ s # post \<Longrightarrow>
   runLoop pre m wCtx [] = (None, m1, wCtx1, tr1) \<Longrightarrow>
   runSystem s wCtx1 = (Some e, wCtx2) \<Longrightarrow>
   runSystems m wCtx =
     (Some (Wrapf e ''System %s generated an error'' [Name s]),
      m1\<lparr>currentSystem := ''''\<rparr>, wCtx2, tr1 @ [Invoke (Name s) (Name s)]) \<and>
   invoked (tr1 @ [Invoke (Name s) (Name s)]) = map Name pre @ [Name s]"
proof -
  assume sys: "systemsToRun m wCtx = pre @ s # post"
    and pre: "runLoop pre m wCtx [] = (None, m1, wCtx1, tr1)"
    and s: "runSystem s wCtx1 = (Some e, wCtx2)"
  have "runLoop (s # post) m1 wCtx1 tr1 =
      (Some (Wrapf e ''System %s generated an error'' [Name s]),
       m1\<lparr>currentSystem := ''''\<rparr>, wCtx2, tr1 @ [Invoke (Name s) (Name s)])"
    using s by (simp add: runSystem_def Let_def GetCurrentSystem_def)
  then have "runLoop (systemsToRun m wCtx) m wCtx [] =
      (Some (Wrapf e ''System %s generated an error'' [Name s]),
       m1\<lparr>currentSystem := ''''\<rparr>, wCtx2, tr1 @ [Invoke (Name s) (Name s)])"
    using pre by (simp add: sys runLoop_append)
  then have run: "runSystems m wCtx =
      (Some (Wrapf e ''System %s generated an error'' [Name s]),
       m1\<lparr>currentSystem := ''''\<rparr>, wCtx2, tr1 @ [Invoke (Name s) (Name s)])"
    by (simp add: runSystems_def)
  have "tr1 = [] @ concat (map stepEvents pre)"
    using runLoop_None [OF pre] by simp
  then have "invoked (tr1 @ [Invoke (Name s) (Name s)]) = map Name pre @ [Name s]"
    by (simp add: invoked_append invoked_stepEvents)
  with run show ?thesis by simp
qed

theorem runSystems_error_aborts_tick_witness:
  "runSystems mgrFail (ctxAt 7) =
     (Some (Wrapf (New ''boom'') ''System %s generated an error'' [''game.SysFail'']),
      mgrFail,
      \<lparr>CurrentTick = 7, Logger = [(''system'', ''game.SysA''), (''system'', ''game.SysFail'')],
       World = 11\<rparr>,
      [Invoke ''game.SysA'' ''game.SysA'', EmitTickStat ''game.SysA'' ''game.SysA'',
       Invoke ''game.SysFail'' ''game.SysFail'']) \<and>
   invoked [Invoke ''game.SysA'' ''game.SysA'', EmitTickStat ''game.SysA'' ''game.SysA'',
            Invoke ''game.SysFail'' ''game.SysFail''] = [''game.SysA'', ''game.SysFail'']"
proof -
  have sys: "systemsToRun mgrFail (ctxAt 7) = [mkSystem sysA] @ mkSystem sysFail # [mkSystem sysB]"
    by (simp add: systemsToRun_def ctxAt_def mgrFail_def)
  from runSystems_error_aborts_tick [OF sys run_prefix_mgrFail runSystem_sysFail]
  show ?thesis
    by (simp add: Name_mkSystem systemNameOf_sysA systemNameOf_sysFail mgrFail_def)
qed

text \<open>
  C2 with the tick number does not hold: with a failing system at tick 7, the error returned is wrapped with
  the system's name only, the decimal tick number is not among the values it is wrapped
  with, and the same error is returned at tick 8.
\<close>

theorem runSystems_error_has_no_tick:
  "fst (runSystems mgrFail (ctxAt 7)) =
     Some (Wrapf (New ''boom'') ''System %s generated an error'' [''game.SysFail'']) \<and>
   fst (runSystems mgrFail (ctxAt 8)) = fst (runSystems mgrFail (ctxAt 7)) \<and>
   decimal (unat (CurrentTick (ctxAt 7))) = ''7'' \<and>
   \<not> (''game.SysFail'' \<in> set (wrappedWith (the (fst (runSystems mgrFail (ctxAt 7))))) \<and>
      decimal (unat (CurrentTick (ctxAt 7)))
        \<in> set (wrappedWith (the (fst (runSystems mgrFail (ctxAt 7))))))"
proof -
  have d: "decimal (unat (CurrentTick (ctxAt 7))) = ''7''"
    by (simp add: ctxAt_def decimal.simps)
  have r7: "fst (runSystems mgrFail (ctxAt 7)) =
     Some (Wrapf (New ''boom'') ''System %s generated an error'' [''game.SysFail''])"
    by (simp add: run_mgrFail)
  have r8: "fst (runSystems mgrFail (ctxAt 8)) =
     Some (Wrapf (New ''boom'') ''System %s generated an error'' [''game.SysFail''])"
    by (simp add: run_mgrFail)
  show ?thesis
    unfolding d r7 r8 by simp
qed




section \<open>Properties of the transaction queue\<close>

lemma active_submitAll: "active (submitAll txs q) = active q @ txs"
  by (induction txs arbitrary: q) (simp_all add: AddTransaction_def)

lemma processing_submitAll: "processing (submitAll txs q) = processing q"
  by (induction txs arbitrary: q) (simp_all add: AddTransaction_def)

text \<open>
  C1. Let \<open>xs\<close> be the transactions submitted, in this order, after the swap of the tick
  before (or after the creation of the queue) and before the swap of tick N, and \<open>ys\<close>
  those submitted after the swap of tick N, while tick N executes. For every type id,
  the typed view of tick N's batch is the entries of \<open>xs\<close> with that type id, in
  submission order; the processing buffer is that batch during the whole of tick N,
  whatever is submitted meanwhile; and the typed view of tick N+1's batch is the entries
  of \<open>ys\<close> with that type id, in submission order.
\<close>

theorem TypedView_of_tick:
  "TypedView (fst (SwapAndGetProcessing (submitAll xs (snd (SwapAndGetProcessing q0))))) typeID =
     filter (\<lambda>tx. TypeID tx = typeID) xs \<and>
   TypedView (fst (SwapAndGetProcessing (submitAll xs newTransactionQueue))) typeID =
     filter (\<lambda>tx. TypeID tx = typeID) xs \<and>
   processing (submitAll ys (snd (SwapAndGetProcessing (submitAll xs q1)))) =
     fst (SwapAndGetProcessing (submitAll xs q1)) \<and>
   TypedView (fst (SwapAndGetProcessing
                (submitAll ys (snd (SwapAndGetProcessing (submitAll xs q1)))))) typeID =
     filter (\<lambda>tx. TypeID tx = typeID) ys"
  by (simp add: TypedView_def SwapAndGetProcessing_def active_submitAll processing_submitAll
      newTransactionQueue_def)

theorem TypedView_of_tick_witness:
  "TypedView (fst (SwapAndGetProcessing (submitAll [txT1, txOther] newTransactionQueue))) 1 =
     [txT1] \<and>
   processing (submitAll [txT2]
       (snd (SwapAndGetProcessing (submitAll [txT1, txOther] newTransactionQueue)))) =
     [txT1, txOther] \<and>
   TypedView (fst (SwapAndGetProcessing (submitAll [txT2]
       (snd (SwapAndGetProcessing (submitAll [txT1, txOther] newTransactionQueue)))))) 1 =
     [txT2] \<and>
   TypedView (fst (SwapAndGetProcessing (submitAll []
       (snd (SwapAndGetProcessing (submitAll [txT2]
          (snd (SwapAndGetProcessing (submitAll [txT1, txOther] newTransactionQueue))))))))) 1 =
     []"
proof -
  have b: "fst (SwapAndGetProcessing (submitAll [txT1, txOther] newTransactionQueue)) =
           [txT1, txOther]"
    by (simp add: SwapAndGetProcessing_def AddTransaction_def newTransactionQueue_def
        txT1_def txOther_def)
  from TypedView_of_tick [of "[txT1, txOther]" newTransactionQueue 1 "[txT2]" newTransactionQueue]
       TypedView_of_tick [of "[]" "submitAll [txT2]
          (snd (SwapAndGetProcessing (submitAll [txT1, txOther] newTransactionQueue)))" 1]
       b
  show ?thesis
    by (simp add: txT1_def txT2_def txOther_def)
qed

section \<open>Properties of transaction types\<close>

lemma registerEach_dup:
  "\<not> distinct (map txName ts) \<or>
   set (map txName ts) \<inter> set (map (\<lambda>r. txName (snd r)) regs) \<noteq> {} \<Longrightarrow>
   registerEach regs ts = Inl DuplicateRegistration"
proof (induction ts arbitrary: regs)
  case Nil
  then show ?case by simp
next
  case (Cons t ts)
  show ?case
  proof (cases "txName t \<in> set (map (\<lambda>r. txName (snd r)) regs) \<or> t \<in> set (map snd regs)")
    case True
    then show ?thesis by simp
  next
    case False
    have "\<not> distinct (map txName ts) \<or>
          set (map txName ts) \<inter>
            set (map (\<lambda>r. txName (snd r)) (regs @ [(Suc (length regs), t)])) \<noteq> {}"
      using Cons.prems False by auto
    from Cons.IH [OF this] False show ?thesis by simp
  qed
qed

lemma registerEach_Inr:
  "registerEach regs ts = Inr regs' \<Longrightarrow>
   map (\<lambda>r. txName (snd r)) regs' = map (\<lambda>r. txName (snd r)) regs @ map txName ts"
proof (induction ts arbitrary: regs)
  case Nil
  then show ?case by simp
next
  case (Cons t ts)
  from Cons.prems have rest: "registerEach (regs @ [(Suc (length regs), t)]) ts = Inr regs'"
    by (auto split: if_splits)
  from Cons.IH [OF rest] show ?case by simp
qed

lemma RegisterTransactions_dup:
  "\<not> stateIsLoaded w \<Longrightarrow>
   \<not> distinct (map txName ts) \<or>
   set (map txName ts) \<inter> set (map (\<lambda>r. txName (snd r)) (registeredTransactions w)) \<noteq> {} \<Longrightarrow>
   RegisterTransactions ts w = Inl DuplicateRegistration"
  by (simp add: RegisterTransactions_def registerEach_dup)

lemma RegisterTransactions_Inr:
  "RegisterTransactions ts w = Inr w' \<Longrightarrow>
   \<not> stateIsLoaded w' \<and>
   map (\<lambda>r. txName (snd r)) (registeredTransactions w') =
     map (\<lambda>r. txName (snd r)) (registeredTransactions w) @ map txName ts"
  by (auto simp: RegisterTransactions_def split: if_splits sum.splits dest: registerEach_Inr)

lemma registerTxSeq_names:
  "\<not> stateIsLoaded w \<Longrightarrow>
   \<not> stateIsLoaded (registerTxSeq calls w) \<and>
   set (map (\<lambda>r. txName (snd r)) (registeredTransactions w)) \<subseteq>
     set (map (\<lambda>r. txName (snd r)) (registeredTransactions (registerTxSeq calls w)))"
proof (induction calls arbitrary: w)
  case Nil
  then show ?case by simp
next
  case (Cons txs calls)
  show ?case
  proof (cases "RegisterTransactions txs w")
    case (Inl e)
    with Cons.IH [OF Cons.prems] show ?thesis by simp
  next
    case (Inr w')
    from RegisterTransactions_Inr [OF Inr] have o: "\<not> stateIsLoaded w'"
      and n: "set (map (\<lambda>r. txName (snd r)) (registeredTransactions w)) \<subseteq>
              set (map (\<lambda>r. txName (snd r)) (registeredTransactions w'))"
      by auto
    from Cons.IH [OF o] n Inr show ?thesis by auto
  qed
qed

text \<open>
  C6. On a world whose registration is open: a registration call that holds two types of
  the same name fails with \<open>DuplicateRegistration\<close>, whatever their payload shapes and also
  when the two are the identical type; and once a call has registered a type, every later
  call that holds a type of the same name, the identical type among them, fails with
  \<open>DuplicateRegistration\<close>, whatever registration calls were made in between.
\<close>

theorem RegisterTransactions_duplicate:
  "\<not> stateIsLoaded w \<Longrightarrow>
   (txName a = txName b \<longrightarrow>
      RegisterTransactions (pre @ a # mid @ b # post) w = Inl DuplicateRegistration) \<and>
   (RegisterTransactions (pre @ a # post) w = Inr w' \<and> txName b = txName a \<longrightarrow>
      RegisterTransactions (pre' @ b # post') w' = Inl DuplicateRegistration \<and>
      RegisterTransactions (pre' @ b # post') (registerTxSeq calls w') =
        Inl DuplicateRegistration)"
proof (intro conjI impI)
  assume o: "\<not> stateIsLoaded w" and n: "txName a = txName b"
  then have "\<not> distinct (map txName (pre @ a # mid @ b # post))" by simp
  with o show "RegisterTransactions (pre @ a # mid @ b # post) w = Inl DuplicateRegistration"
    using RegisterTransactions_dup by blast
next
  assume "RegisterTransactions (pre @ a # post) w = Inr w' \<and> txName b = txName a"
  then have r: "RegisterTransactions (pre @ a # post) w = Inr w'" and n: "txName b = txName a"
    by simp_all
  from RegisterTransactions_Inr [OF r] have o: "\<not> stateIsLoaded w'"
    and "txName a \<in> set (map (\<lambda>r. txName (snd r)) (registeredTransactions w'))"
    by simp_all
  with n have "set (map txName (pre' @ b # post')) \<inter>
      set (map (\<lambda>r. txName (snd r)) (registeredTransactions w')) \<noteq> {}"
    by auto
  with o show "RegisterTransactions (pre' @ b # post') w' = Inl DuplicateRegistration"
    using RegisterTransactions_dup by blast
next
  assume "RegisterTransactions (pre @ a # post) w = Inr w' \<and> txName b = txName a"
  then have r: "RegisterTransactions (pre @ a # post) w = Inr w'" and n: "txName b = txName a"
    by simp_all
  from RegisterTransactions_Inr [OF r] have o: "\<not> stateIsLoaded w'"
    and a: "txName a \<in> set (map (\<lambda>r. txName (snd r)) (registeredTransactions w'))"
    by simp_all
  from registerTxSeq_names [OF o, of calls] have o': "\<not> stateIsLoaded (registerTxSeq calls w')"
    and s: "set (map (\<lambda>r. txName (snd r)) (registeredTransactions w')) \<subseteq>
            set (map (\<lambda>r. txName (snd r)) (registeredTransactions (registerTxSeq calls w')))"
    by simp_all
  from a s n have "set (map txName (pre' @ b # post')) \<inter>
      set (map (\<lambda>r. txName (snd r)) (registeredTransactions (registerTxSeq calls w'))) \<noteq> {}"
    by auto
  with o' show "RegisterTransactions (pre' @ b # post') (registerTxSeq calls w') =
      Inl DuplicateRegistration"
    using RegisterTransactions_dup by blast
qed

theorem RegisterTransactions_duplicate_witness:
  "RegisterTransactions [alphaTx, betaTx] newTxRegistry = Inl DuplicateRegistration \<and>
   txShape alphaTx \<noteq> txShape betaTx \<and>
   RegisterTransactions [modifyScoreTx, modifyScoreTx] newTxRegistry = Inl DuplicateRegistration \<and>
   RegisterTransactions [modifyScoreTx] newTxRegistry =
     Inr \<lparr>registeredTransactions = [(1, modifyScoreTx)], stateIsLoaded = False\<rparr> \<and>
   RegisterTransactions [modifyScoreTx]
     \<lparr>registeredTransactions = [(1, modifyScoreTx)], stateIsLoaded = False\<rparr> =
     Inl DuplicateRegistration \<and>
   registerTxSeq [[moveTx]] \<lparr>registeredTransactions = [(1, modifyScoreTx)], stateIsLoaded = False\<rparr> =
     \<lparr>registeredTransactions = [(1, modifyScoreTx), (2, moveTx)], stateIsLoaded = False\<rparr> \<and>
   RegisterTransactions [modifyScoreTx]
     \<lparr>registeredTransactions = [(1, modifyScoreTx), (2, moveTx)], stateIsLoaded = False\<rparr> =
     Inl DuplicateRegistration"
proof -
  have o: "\<not> stateIsLoaded (newTxRegistry :: (string, nat) TxRegistry)"
    by (simp add: newTxRegistry_def)
  have n: "txName alphaTx = txName betaTx"
    by (simp add: alphaTx_def betaTx_def NewTransactionType_def)
  have s: "txShape alphaTx \<noteq> txShape betaTx"
    by (simp add: alphaTx_def betaTx_def NewTransactionType_def)
  have r: "RegisterTransactions ([] @ modifyScoreTx # []) newTxRegistry =
     Inr \<lparr>registeredTransactions = [(1, modifyScoreTx)], stateIsLoaded = False\<rparr>"
    by (simp add: RegisterTransactions_def newTxRegistry_def)
  have q: "registerTxSeq [[moveTx]]
       \<lparr>registeredTransactions = [(1, modifyScoreTx)], stateIsLoaded = False\<rparr> =
     \<lparr>registeredTransactions = [(1, modifyScoreTx), (2, moveTx)], stateIsLoaded = False\<rparr>"
    by (simp add: RegisterTransactions_def modifyScoreTx_def moveTx_def NewTransactionType_def)
  from RegisterTransactions_duplicate [OF o, of alphaTx betaTx "[]" "[]" "[]"] n
  have 1: "RegisterTransactions [alphaTx, betaTx] newTxRegistry = Inl DuplicateRegistration"
    by simp
  from RegisterTransactions_duplicate [OF o, of modifyScoreTx modifyScoreTx "[]" "[]" "[]"]
  have 2: "RegisterTransactions [modifyScoreTx, modifyScoreTx] newTxRegistry =
           Inl DuplicateRegistration"
    by simp
  from RegisterTransactions_duplicate [OF o, of modifyScoreTx modifyScoreTx "[]" "[]" "[]"
      "\<lparr>registeredTransactions = [(1, modifyScoreTx)], stateIsLoaded = False\<rparr>" "[]" "[]"
      "[[moveTx]]"] r
  have 3: "RegisterTransactions [modifyScoreTx]
       \<lparr>registeredTransactions = [(1, modifyScoreTx)], stateIsLoaded = False\<rparr> =
       Inl DuplicateRegistration"
    and 4: "RegisterTransactions [modifyScoreTx]
       (registerTxSeq [[moveTx]]
          \<lparr>registeredTransactions = [(1, modifyScoreTx)], stateIsLoaded = False\<rparr>) =
       Inl DuplicateRegistration"
    by simp_all
  from 4 have 5: "RegisterTransactions [modifyScoreTx]
     \<lparr>registeredTransactions = [(1, modifyScoreTx), (2, moveTx)], stateIsLoaded = False\<rparr> =
     Inl DuplicateRegistration"
    unfolding q .
  from 1 2 3 5 s r q show ?thesis by simp
qed

text \<open>
  C8. For a transaction type as \<open>NewTransactionType\<close> makes it, on which \<open>SetSchema\<close> has not
  been called, \<open>DecodeExternalBytes\<close> fails with \<open>SchemaNotConfigured\<close> on every byte
  sequence, whatever the decoder of the external library does.
\<close>

theorem DecodeExternalBytes_before_SetSchema:
  "DecodeExternalBytes unpack (NewTransactionType name shape) bz = Inl SchemaNotConfigured"
  by (simp add: DecodeExternalBytes_def NewTransactionType_def)

lemma DecodeExternalBytes_after_SetSchema:
  "DecodeExternalBytes unpack (SetSchema schema t) bz =
     (case unpack schema bz of None \<Rightarrow> Inl DecodeFailure | Some p \<Rightarrow> Inr p)"
  by (simp add: DecodeExternalBytes_def SetSchema_def)

end
